theory Spec2Isabelle
  imports Main "HOL-Library.Word" "HOL-Library.Multiset"
begin

section \<open>StreetEats server: data model\<close>

text \<open>
  The server (\<^verbatim>\<open>src/server.js\<close>) is a set of HTTP handlers over MongoDB collections and
  the upload directory. A handler is modelled as a function from the request and the
  state (collections and disk) to the new state and the response. A collection is the
  list of its documents in insertion order.

  The document store is used through mongoose. What the model takes from it:
  \<^item> a path of a new document that the request leaves out gets the schema's default;
  \<^item> a Boolean path casts \<^verbatim>\<open>true, 'true', 1, '1', 'yes'\<close> to true,
    \<^verbatim>\<open>false, 'false', 0, '0', 'no'\<close> to false, keeps null, and rejects anything else
    (the save then fails);
  \<^item> \<^verbatim>\<open>_id\<close> is unique in a collection: inserting a second document with an
    \<^verbatim>\<open>_id\<close> already there fails;
  \<^item> \<^verbatim>\<open>findByIdAndUpdate\<close>, \<^verbatim>\<open>findByIdAndDelete\<close> and
    \<^verbatim>\<open>findOneAndUpdate\<close> act on the first matching document and resolve to null,
    without throwing, when there is none; an id that is not an ObjectId makes them throw.
  String paths of a request body are taken as strings already (or absent). A store
  operation is taken to reach the database: a lost connection is not modelled. Of a
  response the model keeps the status and the message, or the data; the
  \<^verbatim>\<open>details\<close> of an error response are left out.
\<close>

type_synonym objid = nat

type_synonym byte = "8 word"

datatype jsval = JNull | JBool bool | JNum int | JStr string

datatype 'a cast_result = CastError | Casted 'a

record vendor =
  oid :: objid
  fullName :: "string option"
  email :: "string option"
  phone :: "string option"
  password :: "string option"
  aadhar :: "string option"
  gst :: "string option"
  verified :: "bool option"
  shoploc :: "string option"
  shopname :: "string option"

record supplier = vendor +
  shopStatus :: "bool option"

record menu =
  menu_phone :: "string option"
  menu_shopname :: "string option"
  menu_gst :: "string option"
  itemname :: "string option"
  itemcost :: "int option"
  todaysstock :: "int option"

record vendorcart =
  itemId :: "string option"
  cart_itemname :: "string option"
  cart_itemcost :: "int option"
  quantity :: "int option"
  supplierShop :: "string option"
  supplierGst :: "string option"
  vendorName :: "string option"
  vendorShop :: "string option"
  vendorGst :: "string option"

record attachment =
  filename :: string
  mimetype :: string
  content :: string

record grievance =
  g_supplierName :: "string option"
  g_supplierShop :: "string option"
  g_vendorName :: "string option"
  g_vendorLocation :: "string option"
  issueDate :: "int option"
  issueType :: "string option"
  issueDetails :: "string option"
  postedBy :: string
  attachments :: "attachment list"

record state =
  vendors :: "vendor list"
  suppliers :: "supplier list"
  menus :: "menu list"
  vendorcarts :: "vendorcart list"
  grievances :: "grievance list"
  disk :: "string \<Rightarrow> byte list option"

datatype payload =
    Message string
  | Error string
  | Users "vendor list" "supplier list"
  | GrievanceList "grievance list"
  | ShopStatus string "bool option"

type_synonym response = "nat \<times> payload"

section \<open>Document store operations\<close>

text \<open>The Boolean cast of mongoose (\<^verbatim>\<open>castBoolean\<close>); \<open>None\<close> is null.\<close>

fun castBoolean :: "jsval \<Rightarrow> bool option cast_result" where
  "castBoolean (JBool b) = Casted (Some b)"
| "castBoolean (JStr s) =
     (if s = ''true'' \<or> s = ''1'' \<or> s = ''yes'' then Casted (Some True)
      else if s = ''false'' \<or> s = ''0'' \<or> s = ''no'' then Casted (Some False)
      else CastError)"
| "castBoolean (JNum n) =
     (if n = 1 then Casted (Some True)
      else if n = 0 then Casted (Some False)
      else CastError)"
| "castBoolean JNull = Casted None"

text \<open>A path declared \<^verbatim>\<open>{ type: Boolean, default: false }\<close>: the default when the
  request has no such field, the cast of the field otherwise.\<close>

definition boolean_default_false :: "jsval option \<Rightarrow> bool option cast_result" where
  "boolean_default_false x = (case x of None \<Rightarrow> Casted (Some False) | Some v \<Rightarrow> castBoolean v)"

fun update_first :: "('a \<Rightarrow> bool) \<Rightarrow> ('a \<Rightarrow> 'a) \<Rightarrow> 'a list \<Rightarrow> 'a list" where
  "update_first P f [] = []"
| "update_first P f (x # xs) = (if P x then f x # xs else x # update_first P f xs)"

fun delete_first :: "('a \<Rightarrow> bool) \<Rightarrow> 'a list \<Rightarrow> 'a list" where
  "delete_first P [] = []"
| "delete_first P (x # xs) = (if P x then xs else x # delete_first P xs)"

definition has_id :: "objid \<Rightarrow> 'a vendor_scheme \<Rightarrow> bool" where
  "has_id i a = (oid a = i)"

definition set_verified :: "'a vendor_scheme \<Rightarrow> 'a vendor_scheme" where
  "set_verified a = a\<lparr>verified := Some True\<rparr>"

text \<open>\<^verbatim>\<open>Model.findByIdAndUpdate(id, { verified: true })\<close> and
  \<^verbatim>\<open>Model.findByIdAndDelete(id)\<close> on a collection.\<close>

definition findByIdAndUpdate_verified :: "objid \<Rightarrow> 'a vendor_scheme list \<Rightarrow> 'a vendor_scheme list" where
  "findByIdAndUpdate_verified i xs = update_first (has_id i) set_verified xs"

definition findByIdAndDelete :: "objid \<Rightarrow> 'a vendor_scheme list \<Rightarrow> 'a vendor_scheme list" where
  "findByIdAndDelete i xs = delete_first (has_id i) xs"

text \<open>\<^verbatim>\<open>Model.find({ verified: { $ne: true } })\<close>.\<close>

definition find_unverified :: "'a vendor_scheme list \<Rightarrow> 'a vendor_scheme list" where
  "find_unverified xs = filter (\<lambda>a. verified a \<noteq> Some True) xs"

section \<open>Registration\<close>

text \<open>
  The JSON body of a registration request. \<^verbatim>\<open>new Vendor({ ...req.body })\<close> copies every
  field of the body that the schema declares into the new document, \<^verbatim>\<open>verified\<close>
  (and \<^verbatim>\<open>shopStatus\<close> for a supplier) among them. The second argument of the
  handlers is the \<^verbatim>\<open>_id\<close> of the new document.
\<close>

record reg_body =
  body_fullName :: "string option"
  body_email :: "string option"
  body_phone :: "string option"
  body_password :: "string option"
  body_aadhar :: "string option"
  body_gst :: "string option"
  body_verified :: "jsval option"
  body_shoploc :: "string option"
  body_shopname :: "string option"
  body_shopStatus :: "jsval option"

definition new_Vendor :: "reg_body \<Rightarrow> objid \<Rightarrow> vendor cast_result" where
  "new_Vendor b i =
     (case boolean_default_false (body_verified b) of
        CastError \<Rightarrow> CastError
      | Casted v \<Rightarrow> Casted
          \<lparr>oid = i, fullName = body_fullName b, email = body_email b, phone = body_phone b,
           password = body_password b, aadhar = body_aadhar b, gst = body_gst b,
           verified = v, shoploc = body_shoploc b, shopname = body_shopname b\<rparr>)"

definition new_Supplier :: "reg_body \<Rightarrow> objid \<Rightarrow> supplier cast_result" where
  "new_Supplier b i =
     (case boolean_default_false (body_verified b) of
        CastError \<Rightarrow> CastError
      | Casted v \<Rightarrow>
         (case boolean_default_false (body_shopStatus b) of
            CastError \<Rightarrow> CastError
          | Casted st \<Rightarrow> Casted
              \<lparr>oid = i, fullName = body_fullName b, email = body_email b, phone = body_phone b,
               password = body_password b, aadhar = body_aadhar b, gst = body_gst b,
               verified = v, shoploc = body_shoploc b, shopname = body_shopname b,
               shopStatus = st\<rparr>))"

text \<open>\<^verbatim>\<open>doc.save()\<close> of a new document: \<open>None\<close> when it throws.\<close>

definition save_new :: "'a vendor_scheme cast_result \<Rightarrow> 'a vendor_scheme list \<Rightarrow> 'a vendor_scheme list option" where
  "save_new d xs =
     (case d of
        CastError \<Rightarrow> None
      | Casted a \<Rightarrow> if oid a \<in> set (map oid xs) then None else Some (xs @ [a]))"

text \<open>\<^verbatim>\<open>POST /api/register\<close>\<close>

definition register :: "reg_body \<Rightarrow> objid \<Rightarrow> state \<Rightarrow> state \<times> response" where
  "register b i s =
     (case save_new (new_Vendor b i) (vendors s) of
        None \<Rightarrow> (s, (500, Error ''Registration failed''))
      | Some vs \<Rightarrow> (s\<lparr>vendors := vs\<rparr>, (200, Message ''Vendor registered'')))"

text \<open>\<^verbatim>\<open>POST /api/supplier/register\<close>\<close>

definition supplier_register :: "reg_body \<Rightarrow> objid \<Rightarrow> state \<Rightarrow> state \<times> response" where
  "supplier_register b i s =
     (case save_new (new_Supplier b i) (suppliers s) of
        None \<Rightarrow> (s, (500, Error ''Supplier registration failed''))
      | Some ss \<Rightarrow> (s\<lparr>suppliers := ss\<rparr>, (200, Message ''Supplier registered'')))"

section \<open>Verification of accounts\<close>

text \<open>\<^verbatim>\<open>GET /api/unverified-users\<close>\<close>

definition unverified_users :: "state \<Rightarrow> response" where
  "unverified_users s = (200, Users (find_unverified (vendors s)) (find_unverified (suppliers s)))"

text \<open>
  \<^verbatim>\<open>POST /api/verify-user\<close>. The id is the request's \<^verbatim>\<open>id\<close> after the cast to
  ObjectId: \<open>None\<close> when it does not cast, so that the store operation throws.
\<close>

definition verify_user :: "string \<Rightarrow> objid option \<Rightarrow> state \<Rightarrow> state \<times> response" where
  "verify_user userType id_arg s =
     (if userType = ''vendor'' then
        (case id_arg of
           None \<Rightarrow> (s, (500, Error ''Verification failed''))
         | Some i \<Rightarrow> (s\<lparr>vendors := findByIdAndUpdate_verified i (vendors s)\<rparr>,
                      (200, Message ''User verified'')))
      else if userType = ''supplier'' then
        (case id_arg of
           None \<Rightarrow> (s, (500, Error ''Verification failed''))
         | Some i \<Rightarrow> (s\<lparr>suppliers := findByIdAndUpdate_verified i (suppliers s)\<rparr>,
                      (200, Message ''User verified'')))
      else (s, (200, Message ''User verified'')))"

text \<open>\<^verbatim>\<open>DELETE /api/reject-user/:type/:id\<close>\<close>

definition reject_user :: "string \<Rightarrow> objid option \<Rightarrow> state \<Rightarrow> state \<times> response" where
  "reject_user type_arg id_arg s =
     (if type_arg = ''vendor'' then
        (case id_arg of
           None \<Rightarrow> (s, (500, Error ''Rejection failed''))
         | Some i \<Rightarrow> (s\<lparr>vendors := findByIdAndDelete i (vendors s)\<rparr>,
                      (200, Message ''User rejected and deleted'')))
      else if type_arg = ''supplier'' then
        (case id_arg of
           None \<Rightarrow> (s, (500, Error ''Rejection failed''))
         | Some i \<Rightarrow> (s\<lparr>suppliers := findByIdAndDelete i (suppliers s)\<rparr>,
                      (200, Message ''User rejected and deleted'')))
      else (s, (200, Message ''User rejected and deleted'')))"

section \<open>Shop status\<close>

text \<open>
  \<^verbatim>\<open>POST /api/supplier/shop-status\<close>. \<^verbatim>\<open>!phone\<close> holds of an absent phone and of the
  empty string; \<^verbatim>\<open>typeof status !== 'boolean'\<close> of everything but a JSON boolean.
\<close>

definition has_phone :: "string \<Rightarrow> 'a vendor_scheme \<Rightarrow> bool" where
  "has_phone p a = (phone a = Some p)"

definition supplier_shop_status :: "string option \<Rightarrow> jsval option \<Rightarrow> state \<Rightarrow> state \<times> response" where
  "supplier_shop_status ph st s =
     (case (ph, st) of
        (Some p, Some (JBool b)) \<Rightarrow>
          (if p = [] then (s, (400, Error ''Phone and status (boolean) are required''))
           else
             (case find (has_phone p) (suppliers s) of
                None \<Rightarrow> (s, (404, Error ''Supplier not found''))
              | Some a \<Rightarrow>
                  (s\<lparr>suppliers := update_first (has_phone p) (\<lambda>a. a\<lparr>shopStatus := Some b\<rparr>) (suppliers s)\<rparr>,
                   (200, ShopStatus ''Shop status updated successfully'' (Some b)))))
      | _ \<Rightarrow> (s, (400, Error ''Phone and status (boolean) are required'')))"

section \<open>Attachments\<close>

text \<open>
  A file of \<^verbatim>\<open>req.files\<close>, as the upload middleware hands it to the handler: the
  middleware (\<^verbatim>\<open>multer.diskStorage\<close>, destination \<^verbatim>\<open>uploads/\<close>) has written the
  file's bytes to \<^verbatim>\<open>path\<close> before the handler runs.
\<close>

record upload =
  originalname :: string
  file_mimetype :: string
  path :: string

text \<open>
  A file part of a multipart request, as it reaches the upload middleware: the name and
  the content type the client gave, the bytes, and what \<^verbatim>\<open>Date.now()\<close> reads when the
  \<^verbatim>\<open>filename\<close> callback of the storage is called for it.
\<close>

record part =
  part_originalname :: string
  part_mimetype :: string
  part_bytes :: "byte list"
  part_now :: nat

text \<open>A number written as a string, as \<^verbatim>\<open>Date.now() + '-'\<close> does it: in decimal.\<close>

fun decimal :: "nat \<Rightarrow> string" where
  "decimal n =
     (if n < 10 then [''0123456789'' ! n]
      else decimal (n div 10) @ [''0123456789'' ! (n mod 10)])"

declare decimal.simps [simp del]

text \<open>
  The storage of the server:
  \<^verbatim>\<open>destination: (req, file, cb) => cb(null, 'uploads/')\<close> and
  \<^verbatim>\<open>filename: (req, file, cb) => cb(null, Date.now() + '-' + file.originalname)\<close>.
\<close>

definition storage_destination :: string where
  "storage_destination = ''uploads/''"

definition storage_filename :: "part \<Rightarrow> string" where
  "storage_filename p = decimal (part_now p) @ ''-'' @ part_originalname p"

definition staged_path :: "part \<Rightarrow> string" where
  "staged_path p = storage_destination @ storage_filename p"

text \<open>
  \<^verbatim>\<open>upload.array('attachments')\<close>: every part is written to its path under the
  destination, in the order of the request, and described in \<^verbatim>\<open>req.files\<close>. A part
  written to a path that holds a file already replaces it.
\<close>

fun upload_array :: "part list \<Rightarrow> (string \<Rightarrow> byte list option) \<Rightarrow> (string \<Rightarrow> byte list option) \<times> upload list" where
  "upload_array [] d = (d, [])"
| "upload_array (p # ps) d =
     (case upload_array ps (d(staged_path p := Some (part_bytes p))) of
        (d', fs) \<Rightarrow>
          (d', \<lparr>originalname = part_originalname p, file_mimetype = part_mimetype p,
                path = staged_path p\<rparr> # fs))"

text \<open>
  \<^verbatim>\<open>Buffer.toString('base64')\<close>: the standard alphabet, three bytes to four characters,
  the last group padded with \<^verbatim>\<open>=\<close>.
\<close>

definition b64_alphabet :: string where
  "b64_alphabet = ''ABCDEFGHIJKLMNOPQRSTUVWXYZabcdefghijklmnopqrstuvwxyz0123456789+/''"

definition b64_char :: "nat \<Rightarrow> char" where
  "b64_char n = b64_alphabet ! n"

fun toString_base64 :: "byte list \<Rightarrow> string" where
  "toString_base64 [] = []"
| "toString_base64 [a] =
     [b64_char (unat a div 4), b64_char (unat a mod 4 * 16), CHR ''='', CHR ''='']"
| "toString_base64 [a, b] =
     [b64_char (unat a div 4), b64_char (unat a mod 4 * 16 + unat b div 16),
      b64_char (unat b mod 16 * 4), CHR ''='']"
| "toString_base64 (a # b # c # bs) =
     [b64_char (unat a div 4), b64_char (unat a mod 4 * 16 + unat b div 16),
      b64_char (unat b mod 16 * 4 + unat c div 64), b64_char (unat c mod 64)]
     @ toString_base64 bs"

text \<open>
  The server has no decoder. The round-trip law is stated against the decoder of the
  same encoding (RFC 4648), which rejects a string that is not a base64 encoding.
\<close>

fun index_of :: "'a \<Rightarrow> 'a list \<Rightarrow> nat option" where
  "index_of c [] = None"
| "index_of c (x # xs) = (if c = x then Some 0 else map_option Suc (index_of c xs))"

definition b64_value :: "char \<Rightarrow> nat option" where
  "b64_value c = index_of c b64_alphabet"

fun b64_decode :: "string \<Rightarrow> byte list option" where
  "b64_decode [] = Some []"
| "b64_decode (c1 # c2 # c3 # c4 # cs) =
     (case (b64_value c1, b64_value c2) of
        (Some s1, Some s2) \<Rightarrow>
          if c3 = CHR ''='' then
            (if c4 = CHR ''='' \<and> cs = [] \<and> s2 mod 16 = 0
             then Some [of_nat (s1 * 4 + s2 div 16)] else None)
          else
            (case b64_value c3 of
               None \<Rightarrow> None
             | Some s3 \<Rightarrow>
                 if c4 = CHR ''='' then
                   (if cs = [] \<and> s3 mod 4 = 0
                    then Some [of_nat (s1 * 4 + s2 div 16), of_nat (s2 mod 16 * 16 + s3 div 4)]
                    else None)
                 else
                   (case b64_value c4 of
                      None \<Rightarrow> None
                    | Some s4 \<Rightarrow>
                        map_option
                          (\<lambda>r. [of_nat (s1 * 4 + s2 div 16), of_nat (s2 mod 16 * 16 + s3 div 4),
                                of_nat (s3 mod 4 * 64 + s4)] @ r)
                          (b64_decode cs)))
      | _ \<Rightarrow> None)"
| "b64_decode _ = None"

text \<open>
  The \<^verbatim>\<open>map\<close> over \<^verbatim>\<open>req.files\<close>: \<^verbatim>\<open>fs.readFileSync(file.path)\<close> throws when
  there is no file at the path, which ends the handler in its \<^verbatim>\<open>catch\<close>
  (\<open>None\<close> here).
\<close>

fun encode_files :: "(string \<Rightarrow> byte list option) \<Rightarrow> upload list \<Rightarrow> attachment list option" where
  "encode_files d [] = Some []"
| "encode_files d (f # fs) =
     (case d (path f) of
        None \<Rightarrow> None
      | Some bytes \<Rightarrow>
          (case encode_files d fs of
             None \<Rightarrow> None
           | Some as \<Rightarrow>
               Some (\<lparr>filename = originalname f, mimetype = file_mimetype f,
                      content = toString_base64 bytes\<rparr> # as)))"

text \<open>
  \<^verbatim>\<open>req.files?.forEach(file => fs.unlinkSync(file.path))\<close>: the files are removed in
  order; \<^verbatim>\<open>unlinkSync\<close> throws when there is no file at the path, and the files after
  it stay. The result is the disk and whether the loop ran to its end.
\<close>

fun unlink_all :: "upload list \<Rightarrow> (string \<Rightarrow> byte list option) \<Rightarrow> (string \<Rightarrow> byte list option) \<times> bool" where
  "unlink_all [] d = (d, True)"
| "unlink_all (f # fs) d =
     (case d (path f) of
        None \<Rightarrow> (d, False)
      | Some bytes \<Rightarrow> unlink_all fs (d(path f := None)))"

section \<open>Grievances\<close>

text \<open>
  The fields of a multipart grievance request. \<^verbatim>\<open>issueDate\<close> is given as the Date
  cast sees it: absent or empty, a string that denotes no instant (the cast fails), or one
  that denotes an instant, in milliseconds since the epoch. A Date holds no instant beyond
  8.64e15 milliseconds on either side of the epoch, and the cast fails there too. The \<^verbatim>\<open>_id\<close> of a grievance plays no part in any handler and is left
  out of the model.
\<close>

datatype date_arg = NoDate | BadDate | DateMs int

record grievance_body =
  req_supplierName :: "string option"
  req_supplierShop :: "string option"
  req_vendorName :: "string option"
  req_vendorLocation :: "string option"
  req_issueDate :: date_arg
  req_issueType :: "string option"
  req_issueDetails :: "string option"
  req_postedBy :: "string option"

fun castDate :: "date_arg \<Rightarrow> int option cast_result" where
  "castDate NoDate = Casted None"
| "castDate BadDate = CastError"
| "castDate (DateMs t) =
     (if - 8640000000000000 \<le> t \<and> t \<le> 8640000000000000 then Casted (Some t) else CastError)"

text \<open>
  \<^verbatim>\<open>new Grievance({...req.body, attachments: files, postedBy: req.body.postedBy})\<close> and
  \<^verbatim>\<open>grievance.save()\<close>: the schema requires \<^verbatim>\<open>postedBy\<close> and restricts it to
  \<^verbatim>\<open>'vendor'\<close> and \<^verbatim>\<open>'supplier'\<close>; the save throws (\<open>None\<close>) when validation or
  a cast fails.
\<close>

definition save_Grievance :: "grievance_body \<Rightarrow> attachment list \<Rightarrow> grievance list \<Rightarrow> grievance list option" where
  "save_Grievance b files gs =
     (case req_postedBy b of
        None \<Rightarrow> None
      | Some p \<Rightarrow>
          if p = ''vendor'' \<or> p = ''supplier'' then
            (case castDate (req_issueDate b) of
               CastError \<Rightarrow> None
             | Casted d \<Rightarrow>
                 Some (gs @ [\<lparr>g_supplierName = req_supplierName b, g_supplierShop = req_supplierShop b,
                              g_vendorName = req_vendorName b, g_vendorLocation = req_vendorLocation b,
                              issueDate = d, issueType = req_issueType b,
                              issueDetails = req_issueDetails b, postedBy = p,
                              attachments = files\<rparr>]))
          else None)"

text \<open>
  \<^verbatim>\<open>POST /api/grievance\<close>. \<^verbatim>\<open>req.files\<close> is undefined (\<open>None\<close>) when the request is
  not multipart. Every throw inside the \<^verbatim>\<open>try\<close> ends in the same \<^verbatim>\<open>catch\<close>, which
  answers 500 and does nothing else.
\<close>

definition req_files :: "upload list option \<Rightarrow> upload list" where
  "req_files fs = (case fs of None \<Rightarrow> [] | Some xs \<Rightarrow> xs)"

definition grievance_post :: "grievance_body \<Rightarrow> upload list option \<Rightarrow> state \<Rightarrow> state \<times> response" where
  "grievance_post b fs s =
     (case encode_files (disk s) (req_files fs) of
        None \<Rightarrow> (s, (500, Error ''Grievance submission failed''))
      | Some files \<Rightarrow>
          (case save_Grievance b files (grievances s) of
             None \<Rightarrow> (s, (500, Error ''Grievance submission failed''))
           | Some gs \<Rightarrow>
               (case unlink_all (req_files fs) (disk s) of
                  (d, False) \<Rightarrow>
                    (s\<lparr>grievances := gs, disk := d\<rparr>, (500, Error ''Grievance submission failed''))
                | (d, True) \<Rightarrow>
                    (s\<lparr>grievances := gs, disk := d\<rparr>,
                     (200, Message ''Grievance submitted successfully'')))))"

text \<open>
  The route of a multipart submission,
  \<^verbatim>\<open>app.post('/api/grievance', upload.array('attachments'), handler)\<close>: the middleware
  stages the parts, then the handler runs on what it staged.
\<close>

definition grievance_route :: "grievance_body \<Rightarrow> part list \<Rightarrow> state \<Rightarrow> state \<times> response" where
  "grievance_route b ps s =
     (case upload_array ps (disk s) of
        (d, fs) \<Rightarrow> grievance_post b (Some fs) (s\<lparr>disk := d\<rparr>))"

text \<open>
  \<^verbatim>\<open>String.prototype.toLowerCase\<close>, on the ASCII letters (a string is its bytes here;
  no character outside ASCII lowers to a letter of \<^verbatim>\<open>vendor\<close> or \<^verbatim>\<open>supplier\<close>).
\<close>

definition lower_char :: "char \<Rightarrow> char" where
  "lower_char c =
     (case map_of (zip ''ABCDEFGHIJKLMNOPQRSTUVWXYZ'' ''abcdefghijklmnopqrstuvwxyz'') c of
        None \<Rightarrow> c
      | Some l \<Rightarrow> l)"

definition toLowerCase :: "string \<Rightarrow> string" where
  "toLowerCase s = map lower_char s"

text \<open>
  What a match that ignores case is, apart from any way to compute it: two strings match
  when they have the same length and, at every position, the same character or the capital
  and the small form of one letter.
\<close>

definition letter_cases :: "(char \<times> char) list" where
  "letter_cases =
     [(CHR ''A'', CHR ''a''), (CHR ''B'', CHR ''b''), (CHR ''C'', CHR ''c''), (CHR ''D'', CHR ''d''),
      (CHR ''E'', CHR ''e''), (CHR ''F'', CHR ''f''), (CHR ''G'', CHR ''g''), (CHR ''H'', CHR ''h''),
      (CHR ''I'', CHR ''i''), (CHR ''J'', CHR ''j''), (CHR ''K'', CHR ''k''), (CHR ''L'', CHR ''l''),
      (CHR ''M'', CHR ''m''), (CHR ''N'', CHR ''n''), (CHR ''O'', CHR ''o''), (CHR ''P'', CHR ''p''),
      (CHR ''Q'', CHR ''q''), (CHR ''R'', CHR ''r''), (CHR ''S'', CHR ''s''), (CHR ''T'', CHR ''t''),
      (CHR ''U'', CHR ''u''), (CHR ''V'', CHR ''v''), (CHR ''W'', CHR ''w''), (CHR ''X'', CHR ''x''),
      (CHR ''Y'', CHR ''y''), (CHR ''Z'', CHR ''z'')]"

definition same_letter :: "char \<Rightarrow> char \<Rightarrow> bool" where
  "same_letter c d = (c = d \<or> (c, d) \<in> set letter_cases \<or> (d, c) \<in> set letter_cases)"

definition eq_ignoring_case :: "string \<Rightarrow> string \<Rightarrow> bool" where
  "eq_ignoring_case xs ys = list_all2 same_letter xs ys"

text \<open>
  \<^verbatim>\<open>.sort({ issueDate: -1 })\<close>: descending by date, a grievance without a date after
  all that have one (null is the least value of the store's order). The store promises
  no order among equal dates; the model keeps insertion order there.
\<close>

fun date_gt :: "int option \<Rightarrow> int option \<Rightarrow> bool" where
  "date_gt None y = False"
| "date_gt (Some a) None = True"
| "date_gt (Some a) (Some b) = (b < a)"

definition date_ge :: "int option \<Rightarrow> int option \<Rightarrow> bool" where
  "date_ge x y = (\<not> date_gt y x)"

fun insert_desc :: "grievance \<Rightarrow> grievance list \<Rightarrow> grievance list" where
  "insert_desc g [] = [g]"
| "insert_desc g (x # xs) =
     (if date_gt (issueDate x) (issueDate g) then x # insert_desc g xs else g # x # xs)"

fun sort_issueDate_desc :: "grievance list \<Rightarrow> grievance list" where
  "sort_issueDate_desc [] = []"
| "sort_issueDate_desc (g # gs) = insert_desc g (sort_issueDate_desc gs)"

text \<open>
  \<^verbatim>\<open>GET /api/grievances\<close>. The argument is \<^verbatim>\<open>req.query.postedBy\<close>; the empty string
  is falsy, as the absent parameter is.
\<close>

definition grievance_filter :: "string option \<Rightarrow> grievance \<Rightarrow> bool" where
  "grievance_filter q g =
     (case q of
        None \<Rightarrow> True
      | Some p \<Rightarrow> if p \<noteq> [] \<and> p \<noteq> ''all'' then postedBy g = toLowerCase p else True)"

definition grievances_get :: "string option \<Rightarrow> state \<Rightarrow> response" where
  "grievances_get q s =
     (200, GrievanceList (sort_issueDate_desc (filter (grievance_filter q) (grievances s))))"

section \<open>States\<close>

text \<open>The state of a fresh installation, and the invariants of the collections.\<close>

definition empty_state :: state where
  "empty_state = \<lparr>vendors = [], suppliers = [], menus = [], vendorcarts = [], grievances = [],
     disk = (\<lambda>p. None)\<rparr>"

definition ids_unique :: "state \<Rightarrow> bool" where
  "ids_unique s = (distinct (map oid (vendors s)) \<and> distinct (map oid (suppliers s)))"

definition ledger_ok :: "state \<Rightarrow> bool" where
  "ledger_ok s = list_all (\<lambda>g. postedBy g = ''vendor'' \<or> postedBy g = ''supplier'') (grievances s)"

text \<open>Requests and states used as examples.\<close>

definition empty_body :: reg_body where
  "empty_body = \<lparr>body_fullName = None, body_email = None, body_phone = None, body_password = None,
     body_aadhar = None, body_gst = None, body_verified = None, body_shoploc = None,
     body_shopname = None, body_shopStatus = None\<rparr>"

definition one_vendor :: state where
  "one_vendor = empty_state\<lparr>vendors :=
     [\<lparr>oid = 1, fullName = Some ''Asha'', email = None, phone = Some ''900'', password = None,
       aadhar = None, gst = None, verified = Some False, shoploc = None, shopname = None\<rparr>]\<rparr>"

definition verified_vendor :: state where
  "verified_vendor = empty_state\<lparr>vendors :=
     [\<lparr>oid = 3, fullName = Some ''Kiran'', email = None, phone = Some ''902'', password = None,
       aadhar = None, gst = None, verified = Some True, shoploc = None, shopname = None\<rparr>]\<rparr>"

definition two_suppliers :: state where
  "two_suppliers = empty_state\<lparr>suppliers :=
     [\<lparr>oid = 1, fullName = Some ''Ravi'', email = None, phone = Some ''900'', password = None,
       aadhar = None, gst = None, verified = Some True, shoploc = None, shopname = None,
       shopStatus = Some False\<rparr>,
      \<lparr>oid = 2, fullName = Some ''Mala'', email = None, phone = Some ''901'', password = None,
       aadhar = None, gst = None, verified = Some False, shoploc = None, shopname = None,
       shopStatus = Some False\<rparr>]\<rparr>"

definition late_delivery :: grievance_body where
  "late_delivery = \<lparr>req_supplierName = Some ''Ravi'', req_supplierShop = None,
     req_vendorName = Some ''Asha'', req_vendorLocation = None, req_issueDate = DateMs 1700000000000,
     req_issueType = Some ''late delivery'', req_issueDetails = None, req_postedBy = Some ''vendor''\<rparr>"

definition bill_png :: upload where
  "bill_png = \<lparr>originalname = ''bill.png'', file_mimetype = ''image/png'',
     path = ''uploads/1700000000123-bill.png''\<rparr>"

definition note_txt :: upload where
  "note_txt = \<lparr>originalname = ''note.txt'', file_mimetype = ''text/plain'',
     path = ''uploads/1700000000124-note.txt''\<rparr>"

definition staged :: state where
  "staged = empty_state\<lparr>disk :=
     (\<lambda>p. if p = ''uploads/1700000000123-bill.png'' then Some [72, 105]
          else if p = ''uploads/1700000000124-note.txt'' then Some [1, 2, 3, 255]
          else None)\<rparr>"

definition receipt_first :: part where
  "receipt_first = \<lparr>part_originalname = ''receipt.txt'', part_mimetype = ''text/plain'',
     part_bytes = [1], part_now = 1700000000123\<rparr>"

definition receipt_second :: part where
  "receipt_second = \<lparr>part_originalname = ''receipt.txt'', part_mimetype = ''text/plain'',
     part_bytes = [2], part_now = 1700000000123\<rparr>"

definition photo :: part where
  "photo = \<lparr>part_originalname = ''photo.jpg'', part_mimetype = ''image/jpeg'',
     part_bytes = [255, 216, 255, 224], part_now = 1700000000123\<rparr>"

definition grievance_at :: "int \<Rightarrow> string \<Rightarrow> grievance" where
  "grievance_at t p = \<lparr>g_supplierName = None, g_supplierShop = None, g_vendorName = None,
     g_vendorLocation = None, issueDate = Some t, issueType = None, issueDetails = None,
     postedBy = p, attachments = []\<rparr>"

definition three_grievances :: state where
  "three_grievances = empty_state\<lparr>grievances :=
     [grievance_at 20 ''supplier'', grievance_at 30 ''vendor'', grievance_at 10 ''vendor'']\<rparr>"

section \<open>Properties of the store operations\<close>

lemma update_first_map: "(\<And>x. g (f x) = g x) \<Longrightarrow> map g (update_first P f xs) = map g xs"
  by (induction xs) auto

lemma update_first_idem:
  "(\<And>x. P x \<Longrightarrow> P (f x)) \<Longrightarrow> (\<And>x. f (f x) = f x) \<Longrightarrow>
   update_first P f (update_first P f xs) = update_first P f xs"
  by (induction xs) auto

lemma update_first_none: "\<forall>x\<in>set xs. \<not> P x \<Longrightarrow> update_first P f xs = xs"
  by (induction xs) auto

lemma update_first_fixed: "find P xs = Some a \<Longrightarrow> f a = a \<Longrightarrow> update_first P f xs = xs"
  by (induction xs) (auto split: if_splits)

lemma update_first_split:
  "find P xs = Some a \<Longrightarrow>
   \<exists>pre post. xs = pre @ a # post \<and> (\<forall>x\<in>set pre. \<not> P x) \<and> P a \<and>
     update_first P f xs = pre @ f a # post"
proof (induction xs)
  case Nil then show ?case by simp
next
  case (Cons x xs)
  show ?case
  proof (cases "P x")
    case True
    with Cons.prems have "x = a" by simp
    with True show ?thesis by (intro exI[of _ "[]"] exI[of _ xs]) simp
  next
    case False
    with Cons.prems have "find P xs = Some a" by simp
    from Cons.IH[OF this] obtain pre post where
      h: "xs = pre @ a # post" "\<forall>x\<in>set pre. \<not> P x" "P a" "update_first P f xs = pre @ f a # post"
      by blast
    with False show ?thesis
      by (intro exI[of _ "x # pre"] exI[of _ post]) simp
  qed
qed

lemma delete_first_none: "\<forall>x\<in>set xs. \<not> P x \<Longrightarrow> delete_first P xs = xs"
  by (induction xs) auto

lemma delete_first_subset: "set (delete_first P xs) \<subseteq> set xs"
  by (induction xs) auto

lemma delete_first_filter_others:
  "filter (\<lambda>x. \<not> P x) (delete_first P xs) = filter (\<lambda>x. \<not> P x) xs"
  by (induction xs) auto

lemma delete_first_distinct:
  "distinct (map g xs) \<Longrightarrow> (\<And>x. P x \<longleftrightarrow> g x = k) \<Longrightarrow> \<forall>x\<in>set (delete_first P xs). \<not> P x"
proof (induction xs)
  case Nil then show ?case by simp
next
  case (Cons x xs)
  show ?case
  proof (cases "P x")
    case True
    with Cons.prems have "\<forall>y\<in>set xs. g y \<noteq> k" by (auto simp: image_iff)
    with True Cons.prems(2) show ?thesis by simp
  next
    case False
    with Cons show ?thesis by simp
  qed
qed

lemma delete_first_keeps_distinct:
  "distinct (map g xs) \<Longrightarrow> distinct (map g (delete_first P xs))"
proof (induction xs)
  case Nil then show ?case by simp
next
  case (Cons x xs)
  have "g ` set (delete_first P xs) \<subseteq> g ` set xs"
    using delete_first_subset[of P xs] by blast
  with Cons show ?case by auto
qed

lemma findByIdAndDelete_gone:
  "distinct (map oid xs) \<Longrightarrow> i \<notin> oid ` set (findByIdAndDelete i xs)"
  using delete_first_distinct[of oid xs "has_id i" i]
  by (auto simp: findByIdAndDelete_def has_id_def)

lemma findByIdAndDelete_absent:
  "i \<notin> oid ` set xs \<Longrightarrow> findByIdAndDelete i xs = xs"
  unfolding findByIdAndDelete_def
  by (rule delete_first_none) (auto simp: has_id_def)

lemma findByIdAndUpdate_absent:
  "i \<notin> oid ` set xs \<Longrightarrow> findByIdAndUpdate_verified i xs = xs"
  unfolding findByIdAndUpdate_verified_def
  by (rule update_first_none) (auto simp: has_id_def)

lemma findByIdAndUpdate_idem:
  "findByIdAndUpdate_verified i (findByIdAndUpdate_verified i xs) = findByIdAndUpdate_verified i xs"
  unfolding findByIdAndUpdate_verified_def
  by (rule update_first_idem) (simp_all add: has_id_def set_verified_def)

lemma findByIdAndUpdate_verified_already:
  "find (has_id i) xs = Some a \<Longrightarrow> verified a = Some True \<Longrightarrow> findByIdAndUpdate_verified i xs = xs"
proof -
  assume f: "find (has_id i) xs = Some a" and v: "verified a = Some True"
  have "a\<lparr>verified := verified a\<rparr> = a" by simp
  with v have "set_verified a = a" by (simp add: set_verified_def)
  with f show ?thesis
    unfolding findByIdAndUpdate_verified_def by (rule update_first_fixed)
qed

lemma boolean_default_false_unverified:
  "x \<in> {None, Some (JBool False), Some (JNum 0), Some (JStr ''false''), Some (JStr ''0''),
         Some (JStr ''no'')} \<Longrightarrow> boolean_default_false x = Casted (Some False)"
  by (auto simp: boolean_default_false_def)

text \<open>Every handler keeps the ids of a collection distinct.\<close>

lemma empty_state_ids_unique: "ids_unique empty_state"
  by (simp add: ids_unique_def empty_state_def)

lemma register_ids_unique: "ids_unique s \<Longrightarrow> ids_unique (fst (register b i s))"
  by (auto simp: ids_unique_def register_def save_new_def split: cast_result.splits option.splits if_splits)

lemma supplier_register_ids_unique: "ids_unique s \<Longrightarrow> ids_unique (fst (supplier_register b i s))"
  by (auto simp: ids_unique_def supplier_register_def save_new_def split: cast_result.splits option.splits if_splits)

lemma verify_user_ids_unique: "ids_unique s \<Longrightarrow> ids_unique (fst (verify_user t i s))"
  by (simp add: ids_unique_def verify_user_def findByIdAndUpdate_verified_def set_verified_def
      update_first_map split: option.splits)

lemma reject_user_ids_unique: "ids_unique s \<Longrightarrow> ids_unique (fst (reject_user t i s))"
  by (simp add: ids_unique_def reject_user_def findByIdAndDelete_def delete_first_keeps_distinct
      split: option.splits)

lemma shop_status_ids_unique: "ids_unique s \<Longrightarrow> ids_unique (fst (supplier_shop_status p st s))"
  by (simp add: ids_unique_def supplier_shop_status_def update_first_map
      split: option.splits jsval.splits)

section \<open>Base64 round trip\<close>

lemma index_of_nth: "distinct xs \<Longrightarrow> n < length xs \<Longrightarrow> index_of (xs ! n) xs = Some n"
proof (induction xs arbitrary: n)
  case Nil then show ?case by simp
next
  case (Cons x xs)
  show ?case
  proof (cases n)
    case 0 then show ?thesis by simp
  next
    case (Suc m)
    with Cons.prems have "xs ! m \<noteq> x" by auto
    with Cons Suc show ?thesis by simp
  qed
qed

lemma b64_alphabet_distinct: "distinct b64_alphabet"
  by (simp add: b64_alphabet_def)

lemma b64_alphabet_length: "length b64_alphabet = 64"
  by (simp add: b64_alphabet_def)

lemma b64_value_char: "n < 64 \<Longrightarrow> b64_value (b64_char n) = Some n"
  unfolding b64_value_def b64_char_def
  by (rule index_of_nth) (simp_all add: b64_alphabet_distinct b64_alphabet_length)

lemma b64_char_not_pad: "n < 64 \<Longrightarrow> b64_char n \<noteq> CHR ''=''"
proof -
  assume "n < 64"
  then have "b64_alphabet ! n \<in> set b64_alphabet"
    by (simp add: b64_alphabet_length)
  moreover have "CHR ''='' \<notin> set b64_alphabet"
    by (simp add: b64_alphabet_def)
  ultimately show ?thesis
    unfolding b64_char_def by metis
qed

lemma byte_bound: "unat (a :: byte) < 256"
  using unsigned_less [of a] by simp

lemma byte_of_unat: "of_nat (unat a) = (a :: byte)"
  by simp

lemma sextet_bounds:
  fixes x y z :: nat
  assumes "y < 256"
  shows "y div 4 < 64" "x mod 4 * 16 < 64" "x mod 4 * 16 + y div 16 < 64"
    "x mod 16 * 4 < 64" "x mod 16 * 4 + y div 64 < 64" "x mod 64 < 64"
  using assms by arith+

lemma sextet_split:
  fixes x y :: nat
  assumes "y < 256"
  shows "(x mod 4 * 16 + y div 16) div 16 = x mod 4"
    "(x mod 4 * 16 + y div 16) mod 16 = y div 16"
    "(x mod 16 * 4 + y div 64) div 4 = x mod 16"
    "(x mod 16 * 4 + y div 64) mod 4 = y div 64"
  using assms by simp_all

lemma b64_group3:
  "b64_decode (b64_char (unat a div 4) # b64_char (unat a mod 4 * 16 + unat b div 16) #
       b64_char (unat b mod 16 * 4 + unat c div 64) # b64_char (unat c mod 64) # cs)
     = map_option (\<lambda>r. [a, b, c] @ r) (b64_decode cs)"
  (is "b64_decode (?c1 # ?c2 # ?c3 # ?c4 # cs) = _")
proof -
  note bb = byte_bound [of a] byte_bound [of b] byte_bound [of c]
  have v: "b64_value ?c1 = Some (unat a div 4)"
    "b64_value ?c2 = Some (unat a mod 4 * 16 + unat b div 16)"
    "b64_value ?c3 = Some (unat b mod 16 * 4 + unat c div 64)"
    "b64_value ?c4 = Some (unat c mod 64)"
    using bb by (simp_all add: b64_value_char sextet_bounds)
  have p: "?c3 \<noteq> CHR ''=''" "?c4 \<noteq> CHR ''=''"
    using bb by (simp_all add: b64_char_not_pad sextet_bounds)
  have j: "unat a div 4 * 4 + (unat a mod 4 * 16 + unat b div 16) div 16 = unat a"
    "(unat a mod 4 * 16 + unat b div 16) mod 16 * 16 + (unat b mod 16 * 4 + unat c div 64) div 4 = unat b"
    "(unat b mod 16 * 4 + unat c div 64) mod 4 * 64 + unat c mod 64 = unat c"
    using bb by (simp_all add: sextet_split)
  show ?thesis
    by (simp only: b64_decode.simps v p j if_False option.case prod.case byte_of_unat)
qed

lemma b64_group2:
  "b64_decode [b64_char (unat a div 4), b64_char (unat a mod 4 * 16 + unat b div 16),
       b64_char (unat b mod 16 * 4), CHR ''='']
     = Some [a, b]"
  (is "b64_decode [?c1, ?c2, ?c3, _] = _")
proof -
  note bb = byte_bound [of a] byte_bound [of b]
  have v: "b64_value ?c1 = Some (unat a div 4)"
    "b64_value ?c2 = Some (unat a mod 4 * 16 + unat b div 16)"
    "b64_value ?c3 = Some (unat b mod 16 * 4)"
    using bb by (simp_all add: b64_value_char sextet_bounds)
  have p: "?c3 \<noteq> CHR ''=''"
    by (simp add: b64_char_not_pad sextet_bounds)
  have j: "unat a div 4 * 4 + (unat a mod 4 * 16 + unat b div 16) div 16 = unat a"
    "(unat a mod 4 * 16 + unat b div 16) mod 16 * 16 + (unat b mod 16 * 4) div 4 = unat b"
    "unat b mod 16 * 4 mod 4 = 0"
    using bb by (simp_all add: sextet_split)
  show ?thesis
    by (simp only: b64_decode.simps v p j if_False if_True option.case prod.case byte_of_unat
        simp_thms)
qed

lemma b64_group1:
  "b64_decode [b64_char (unat a div 4), b64_char (unat a mod 4 * 16), CHR ''='', CHR ''='']
     = Some [a]"
  (is "b64_decode [?c1, ?c2, _, _] = _")
proof -
  note bb = byte_bound [of a]
  have v: "b64_value ?c1 = Some (unat a div 4)"
    "b64_value ?c2 = Some (unat a mod 4 * 16)"
    using bb by (simp_all add: b64_value_char sextet_bounds)
  have j: "unat a div 4 * 4 + unat a mod 4 * 16 div 16 = unat a"
    "unat a mod 4 * 16 mod 16 = 0"
    by simp_all
  show ?thesis
    by (simp only: b64_decode.simps v j if_True option.case prod.case byte_of_unat simp_thms)
qed

lemma b64_roundtrip: "b64_decode (toString_base64 bs) = Some bs"
proof (induction bs rule: toString_base64.induct)
  case 1 show ?case by simp
next
  case (2 a) show ?case by (simp only: toString_base64.simps b64_group1)
next
  case (3 a b) show ?case by (simp only: toString_base64.simps b64_group2)
next
  case (4 a b c bs)
  then show ?case by (simp only: toString_base64.simps append_Cons append_Nil b64_group3 option.map)
qed

section \<open>Properties of the grievance handlers\<close>

lemma encode_files_staged:
  "list_all2 (\<lambda>f bytes. d (path f) = Some bytes) fs bss \<Longrightarrow>
   \<exists>as. encode_files d fs = Some as \<and> map filename as = map originalname fs \<and>
     map mimetype as = map file_mimetype fs \<and> map content as = map toString_base64 bss"
  by (induction rule: list_all2_induct) auto

lemma unlink_all_keeps_absent: "unlink_all fs d = (d', ok) \<Longrightarrow> d p = None \<Longrightarrow> d' p = None"
  by (induction fs arbitrary: d) (auto split: option.splits if_splits)

lemma unlink_all_removes: "unlink_all fs d = (d', True) \<Longrightarrow> f \<in> set fs \<Longrightarrow> d' (path f) = None"
proof (induction fs arbitrary: d)
  case Nil then show ?case by simp
next
  case (Cons x xs)
  from Cons.prems(1) obtain bytes where x: "d (path x) = Some bytes"
    and rest: "unlink_all xs (d(path x := None)) = (d', True)"
    by (auto split: option.splits)
  show ?case
  proof (cases "f = x")
    case True
    with unlink_all_keeps_absent [OF rest, of "path x"] show ?thesis by simp
  next
    case False
    with Cons.prems(2) have "f \<in> set xs" by simp
    with Cons.IH [OF rest] show ?thesis by simp
  qed
qed

lemma unlink_all_runs:
  "distinct (map path fs) \<Longrightarrow> \<forall>f\<in>set fs. d (path f) \<noteq> None \<Longrightarrow> snd (unlink_all fs d) = True"
proof (induction fs arbitrary: d)
  case Nil
  show ?case by simp
next
  case (Cons f fs)
  from Cons.prems obtain bytes where b: "d (path f) = Some bytes" by auto
  from Cons.prems have dist: "distinct (map path fs)" by simp
  have "\<forall>g\<in>set fs. (d(path f := None)) (path g) \<noteq> None"
    using Cons.prems by (auto simp: image_iff)
  with dist have "snd (unlink_all fs (d(path f := None))) = True"
    by (rule Cons.IH)
  with b show ?case by simp
qed

lemma list_all2_staged_present:
  "list_all2 (\<lambda>f bytes. d (path f) = Some bytes) fs bss \<Longrightarrow> \<forall>f\<in>set fs. d (path f) \<noteq> None"
  by (induction rule: list_all2_induct) auto

text \<open>When the submission answers 200, every file of the request is gone from the disk.\<close>

lemma submit_success_cleans:
  "grievance_post b (Some fs) s = (s', (200, m)) \<Longrightarrow> f \<in> set fs \<Longrightarrow> disk s' (path f) = None"
  by (auto simp: grievance_post_def req_files_def unlink_all_removes
      split: option.splits prod.splits bool.splits)

text \<open>
  The handler on files that are on the disk at their paths: the ledger gains one entry, whose
  attachments decode to the bytes that the disk holds at the paths.
\<close>

lemma submit_attachments_roundtrip:
  assumes "list_all2 (\<lambda>f bytes. disk s (path f) = Some bytes) fs bss"
    and "req_postedBy b = Some ''vendor'' \<or> req_postedBy b = Some ''supplier''"
    and "castDate (req_issueDate b) \<noteq> CastError"
  shows "\<exists>g. grievances (fst (grievance_post b (Some fs) s)) = grievances s @ [g] \<and>
           length (attachments g) = length fs \<and>
           map filename (attachments g) = map originalname fs \<and>
           map mimetype (attachments g) = map file_mimetype fs \<and>
           map (\<lambda>a. b64_decode (content a)) (attachments g) = map Some bss"
proof -
  from encode_files_staged [OF assms(1)] obtain as where
    as: "encode_files (disk s) fs = Some as" "map filename as = map originalname fs"
      "map mimetype as = map file_mimetype fs" "map content as = map toString_base64 bss"
    by blast
  from assms(2,3) obtain g where
    g: "save_Grievance b as (grievances s) = Some (grievances s @ [g])" "attachments g = as"
    by (cases "castDate (req_issueDate b)") (auto simp: save_Grievance_def)
  have l: "length as = length fs"
    using as(2) by (metis length_map)
  have "map (\<lambda>a. b64_decode (content a)) as = map b64_decode (map content as)"
    by simp
  also have "\<dots> = map Some bss"
    by (simp add: as(4) b64_roundtrip)
  finally have r: "map (\<lambda>a. b64_decode (content a)) as = map Some bss" .
  have "grievances (fst (grievance_post b (Some fs) s)) = grievances s @ [g]"
    using as(1) g(1)
    by (simp add: grievance_post_def req_files_def split: prod.splits bool.splits)
  with g(2) as(2,3) l r show ?thesis by blast
qed

lemma submit_attachments_roundtrip_example:
  "list_all2 (\<lambda>f bytes. disk staged (path f) = Some bytes) [bill_png, note_txt] [[72, 105], [1, 2, 3, 255]] \<and>
   req_postedBy late_delivery = Some ''vendor'' \<and> castDate (req_issueDate late_delivery) \<noteq> CastError \<and>
   (\<exists>g. grievances (fst (grievance_post late_delivery (Some [bill_png, note_txt]) staged)) = [g] \<and>
      length (attachments g) = 2 \<and>
      map filename (attachments g) = [''bill.png'', ''note.txt''] \<and>
      map mimetype (attachments g) = [''image/png'', ''text/plain''] \<and>
      map content (attachments g) = [''SGk='', ''AQID/w==''] \<and>
      map (\<lambda>a. b64_decode (content a)) (attachments g) = [Some [72, 105], Some [1, 2, 3, 255]])"
proof -
  have h: "list_all2 (\<lambda>f bytes. disk staged (path f) = Some bytes) [bill_png, note_txt] [[72, 105], [1, 2, 3, 255]]"
    by (simp add: staged_def empty_state_def bill_png_def note_txt_def)
  have c: "map content (attachments (last (grievances (fst (grievance_post late_delivery (Some [bill_png, note_txt]) staged)))))
      = [''SGk='', ''AQID/w=='']"
    by (simp add: grievance_post_def req_files_def save_Grievance_def staged_def empty_state_def
        bill_png_def note_txt_def late_delivery_def b64_char_def b64_alphabet_def)
  from submit_attachments_roundtrip [OF h, of late_delivery] c h show ?thesis
    by (auto simp: late_delivery_def staged_def empty_state_def bill_png_def note_txt_def)
qed

text \<open>
  The upload middleware: a path that no part is staged at keeps its file, the files of the
  request describe the parts in order, and parts staged at distinct paths are all on the
  disk with their bytes when the handler starts.
\<close>

lemma upload_array_Cons:
  "fst (upload_array (p # ps) d) = fst (upload_array ps (d(staged_path p := Some (part_bytes p))))"
  "snd (upload_array (p # ps) d) =
     \<lparr>originalname = part_originalname p, file_mimetype = part_mimetype p, path = staged_path p\<rparr>
       # snd (upload_array ps (d(staged_path p := Some (part_bytes p))))"
  by (simp_all split: prod.splits)

lemma upload_array_elsewhere:
  "q \<notin> staged_path ` set ps \<Longrightarrow> fst (upload_array ps d) q = d q"
proof (induction ps arbitrary: d)
  case Nil
  show ?case by simp
next
  case (Cons p ps)
  from Cons.prems have ne: "q \<noteq> staged_path p" and rest: "q \<notin> staged_path ` set ps" by auto
  have "fst (upload_array ps (d(staged_path p := Some (part_bytes p)))) q
      = (d(staged_path p := Some (part_bytes p))) q"
    using rest by (rule Cons.IH)
  with ne show ?case
    by (simp add: upload_array_Cons del: upload_array.simps)
qed

lemma upload_array_files:
  "map originalname (snd (upload_array ps d)) = map part_originalname ps \<and>
   map file_mimetype (snd (upload_array ps d)) = map part_mimetype ps \<and>
   map path (snd (upload_array ps d)) = map staged_path ps"
proof (induction ps arbitrary: d)
  case Nil
  show ?case by simp
next
  case (Cons p ps)
  have "map originalname (snd (upload_array ps (d(staged_path p := Some (part_bytes p)))))
          = map part_originalname ps \<and>
        map file_mimetype (snd (upload_array ps (d(staged_path p := Some (part_bytes p)))))
          = map part_mimetype ps \<and>
        map path (snd (upload_array ps (d(staged_path p := Some (part_bytes p)))))
          = map staged_path ps"
    by (rule Cons.IH)
  then show ?case
    by (simp add: upload_array_Cons del: upload_array.simps)
qed

lemma upload_array_staged:
  "distinct (map staged_path ps) \<Longrightarrow>
   list_all2 (\<lambda>f bytes. fst (upload_array ps d) (path f) = Some bytes)
     (snd (upload_array ps d)) (map part_bytes ps)"
proof (induction ps arbitrary: d)
  case Nil
  show ?case by simp
next
  case (Cons p ps)
  from Cons.prems have fresh: "staged_path p \<notin> staged_path ` set ps"
    and rest: "distinct (map staged_path ps)" by simp_all
  have here: "fst (upload_array ps (d(staged_path p := Some (part_bytes p)))) (staged_path p)
      = Some (part_bytes p)"
    using upload_array_elsewhere [OF fresh] by simp
  have "list_all2
          (\<lambda>f bytes. fst (upload_array ps (d(staged_path p := Some (part_bytes p)))) (path f) = Some bytes)
          (snd (upload_array ps (d(staged_path p := Some (part_bytes p))))) (map part_bytes ps)"
    using rest by (rule Cons.IH)
  with here show ?case
    by (simp add: upload_array_Cons del: upload_array.simps)
qed

text \<open>
  The route on parts that are staged at distinct paths: it answers 200, and the attachments
  of the new entry decode to the bytes of the parts.
\<close>

lemma submit_distinct_paths:
  assumes "distinct (map staged_path ps)"
    and "req_postedBy b = Some ''vendor'' \<or> req_postedBy b = Some ''supplier''"
    and "castDate (req_issueDate b) \<noteq> CastError"
  shows "\<exists>g. grievances (fst (grievance_route b ps s)) = grievances s @ [g] \<and>
           length (attachments g) = length ps \<and>
           map filename (attachments g) = map part_originalname ps \<and>
           map mimetype (attachments g) = map part_mimetype ps \<and>
           map (\<lambda>a. b64_decode (content a)) (attachments g) = map (\<lambda>p. Some (part_bytes p)) ps"
    and "snd (grievance_route b ps s) = (200, Message ''Grievance submitted successfully'')"
proof -
  obtain d fs where u: "upload_array ps (disk s) = (d, fs)"
    by (cases "upload_array ps (disk s)")
  have st: "list_all2 (\<lambda>f bytes. disk (s\<lparr>disk := d\<rparr>) (path f) = Some bytes) fs (map part_bytes ps)"
    using upload_array_staged [OF assms(1), of "disk s"] u by simp
  from submit_attachments_roundtrip [OF st assms(2,3)] obtain g where
    g: "grievances (fst (grievance_post b (Some fs) (s\<lparr>disk := d\<rparr>))) = grievances s @ [g]"
      "length (attachments g) = length fs"
      "map filename (attachments g) = map originalname fs"
      "map mimetype (attachments g) = map file_mimetype fs"
      "map (\<lambda>a. b64_decode (content a)) (attachments g) = map Some (map part_bytes ps)"
    by auto
  have f: "map originalname fs = map part_originalname ps" "map file_mimetype fs = map part_mimetype ps"
    "map path fs = map staged_path ps"
    using upload_array_files [of ps "disk s"] u by simp_all
  have l: "length fs = length ps"
    using f(1) by (metis length_map)
  have r: "grievance_route b ps s = grievance_post b (Some fs) (s\<lparr>disk := d\<rparr>)"
    by (simp add: grievance_route_def u)
  from g f l r show "\<exists>g. grievances (fst (grievance_route b ps s)) = grievances s @ [g] \<and>
           length (attachments g) = length ps \<and>
           map filename (attachments g) = map part_originalname ps \<and>
           map mimetype (attachments g) = map part_mimetype ps \<and>
           map (\<lambda>a. b64_decode (content a)) (attachments g) = map (\<lambda>p. Some (part_bytes p)) ps"
    by (intro exI [of _ g]) (simp add: comp_def)
  have present: "\<forall>f\<in>set fs. d (path f) \<noteq> None"
    using list_all2_staged_present [OF st] by simp
  have "distinct (map path fs)"
    using assms(1) f(3) by simp
  then have ok: "snd (unlink_all fs d) = True"
    using present by (rule unlink_all_runs)
  obtain as where as: "encode_files d fs = Some as"
    using encode_files_staged [OF st] by auto
  obtain gs where gs: "save_Grievance b as (grievances s) = Some gs"
    using assms(2,3) by (cases "castDate (req_issueDate b)") (auto simp: save_Grievance_def)
  show "snd (grievance_route b ps s) = (200, Message ''Grievance submitted successfully'')"
    using as gs ok
    by (auto simp: r grievance_post_def req_files_def split: prod.splits bool.splits)
qed

lemma submit_distinct_paths_example:
  "distinct (map staged_path [receipt_first, photo]) \<and>
   map staged_path [receipt_first, photo]
     = [''uploads/1700000000123-receipt.txt'', ''uploads/1700000000123-photo.jpg''] \<and>
   snd (grievance_route late_delivery [receipt_first, photo] empty_state)
     = (200, Message ''Grievance submitted successfully'') \<and>
   map (\<lambda>g. map content (attachments g))
       (grievances (fst (grievance_route late_delivery [receipt_first, photo] empty_state)))
     = [[''AQ=='', ''/9j/4A=='']] \<and>
   disk (fst (grievance_route late_delivery [receipt_first, photo] empty_state)) = (\<lambda>p. None)"
  by (simp add: grievance_route_def grievance_post_def req_files_def save_Grievance_def
      staged_path_def storage_destination_def storage_filename_def decimal.simps
      receipt_first_def photo_def late_delivery_def empty_state_def
      b64_char_def b64_alphabet_def fun_eq_iff)

text \<open>The ledger only ever holds grievances posted by a vendor or a supplier.\<close>

lemma empty_state_ledger_ok: "ledger_ok empty_state"
  by (simp add: ledger_ok_def empty_state_def)

lemma grievance_post_ledger_ok: "ledger_ok s \<Longrightarrow> ledger_ok (fst (grievance_post b fs s))"
  by (auto simp: ledger_ok_def grievance_post_def save_Grievance_def
      split: option.splits prod.splits bool.splits cast_result.splits if_splits)

text \<open>
  Lowering the filter and comparing it with a string that has no capital is the match that
  ignores case.
\<close>

lemma letter_cases_keys_distinct: "distinct (map fst letter_cases)"
  by (simp add: letter_cases_def)

lemma lower_char_table:
  "lower_char c = (case map_of letter_cases c of None \<Rightarrow> c | Some l \<Rightarrow> l)"
  by (simp add: lower_char_def letter_cases_def)

lemma lower_char_same_letter:
  assumes "c \<notin> fst ` set letter_cases"
  shows "c = lower_char d \<longleftrightarrow> same_letter c d"
proof (cases "map_of letter_cases d")
  case None
  then have d: "d \<notin> fst ` set letter_cases"
    by (simp add: map_of_eq_None_iff)
  have "(c, d) \<notin> set letter_cases" "(d, c) \<notin> set letter_cases"
    using assms d by force+
  with None show ?thesis
    by (simp add: lower_char_table same_letter_def)
next
  case (Some l)
  then have dl: "(d, l) \<in> set letter_cases"
    by (rule map_of_SomeD)
  then have d: "d \<in> fst ` set letter_cases" by force
  with assms have ne: "c \<noteq> d" by blast
  have cd: "(c, d) \<notin> set letter_cases"
    using assms by force
  have "(d, c) \<in> set letter_cases \<longleftrightarrow> map_of letter_cases d = Some c"
    using letter_cases_keys_distinct by simp
  with Some ne cd show ?thesis
    by (auto simp: lower_char_table same_letter_def)
qed

lemma toLowerCase_eq_ignoring_case:
  "\<forall>c\<in>set r. c \<notin> fst ` set letter_cases \<Longrightarrow> r = toLowerCase f \<longleftrightarrow> eq_ignoring_case r f"
proof (induction r arbitrary: f)
  case Nil
  show ?case by (simp add: toLowerCase_def eq_ignoring_case_def)
next
  case (Cons c r)
  show ?case
  proof (cases f)
    case Nil
    then show ?thesis by (simp add: toLowerCase_def eq_ignoring_case_def)
  next
    case (Cons d f')
    from Cons.prems have c: "c \<notin> fst ` set letter_cases"
      and r: "\<forall>c\<in>set r. c \<notin> fst ` set letter_cases" by simp_all
    from Cons.IH [OF r, of f'] lower_char_same_letter [OF c, of d] Cons show ?thesis
      by (simp add: toLowerCase_def eq_ignoring_case_def)
  qed
qed

lemma roles_small:
  "\<forall>c\<in>set ''vendor''. c \<notin> fst ` set letter_cases"
  "\<forall>c\<in>set ''supplier''. c \<notin> fst ` set letter_cases"
  by (simp_all add: letter_cases_def)

lemma ledger_ok_small:
  "ledger_ok s \<Longrightarrow> g \<in> set (grievances s) \<Longrightarrow> \<forall>c\<in>set (postedBy g). c \<notin> fst ` set letter_cases"
proof -
  assume "ledger_ok s" "g \<in> set (grievances s)"
  then have "postedBy g = ''vendor'' \<or> postedBy g = ''supplier''"
    by (simp add: ledger_ok_def list_all_iff)
  then show ?thesis
    using roles_small by metis
qed

text \<open>The sort keeps the entries and puts them in descending order of date.\<close>

lemma date_ge_trans: "date_ge x y \<Longrightarrow> date_ge y z \<Longrightarrow> date_ge x z"
  unfolding date_ge_def
  by (cases x; cases y; cases z) auto

lemma date_gt_imp_ge: "date_gt x y \<Longrightarrow> date_ge x y"
  unfolding date_ge_def
  by (cases x; cases y) auto

lemma mset_insert_desc: "mset (insert_desc g xs) = add_mset g (mset xs)"
  by (induction xs) auto

lemma mset_sort_issueDate_desc: "mset (sort_issueDate_desc xs) = mset xs"
  by (induction xs) (auto simp: mset_insert_desc)

lemma set_insert_desc: "set (insert_desc g xs) = insert g (set xs)"
  by (induction xs) auto

lemma sorted_insert_desc:
  "sorted_wrt (\<lambda>a b. date_ge (issueDate a) (issueDate b)) xs \<Longrightarrow>
   sorted_wrt (\<lambda>a b. date_ge (issueDate a) (issueDate b)) (insert_desc g xs)"
proof (induction xs)
  case Nil then show ?case by simp
next
  case (Cons x xs)
  show ?case
  proof (cases "date_gt (issueDate x) (issueDate g)")
    case True
    with Cons show ?thesis
      by (auto simp: set_insert_desc date_gt_imp_ge)
  next
    case False
    then have gx: "date_ge (issueDate g) (issueDate x)"
      by (simp add: date_ge_def)
    have "\<forall>y\<in>set xs. date_ge (issueDate g) (issueDate y)"
      using Cons.prems gx by (auto intro: date_ge_trans)
    with False gx Cons.prems show ?thesis by simp
  qed
qed

lemma sorted_sort_issueDate_desc:
  "sorted_wrt (\<lambda>a b. date_ge (issueDate a) (issueDate b)) (sort_issueDate_desc xs)"
  by (induction xs) (auto simp: sorted_insert_desc)

lemma mset_three:
  assumes "mset xs = {#a, b, c#}"
  shows "xs \<in> {[a, b, c], [a, c, b], [b, a, c], [b, c, a], [c, a, b], [c, b, a]}"
proof -
  from assms have "length xs = 3"
    by (metis size_mset size_add_mset size_empty numeral_3_eq_3)
  then obtain x y z where xs: "xs = [x, y, z]"
    by (auto simp: numeral_3_eq_3 length_Suc_conv)
  with assms show ?thesis
    by (auto simp: add_eq_conv_ex)
qed

text \<open>
  The schema's default: registered from a request that has no \<^verbatim>\<open>verified\<close> field, or
  one of \<^verbatim>\<open>false, 0, 'false', '0', 'no'\<close>, an account is stored unverified.
\<close>

lemma registration_unverified:
  assumes "body_verified b \<in> {None, Some (JBool False), Some (JNum 0), Some (JStr ''false''),
             Some (JStr ''0''), Some (JStr ''no'')}"
  shows "(snd (register b i s) = (200, Message ''Vendor registered'') \<longrightarrow>
           (\<exists>a. vendors (fst (register b i s)) = vendors s @ [a] \<and> oid a = i \<and>
                verified a = Some False)) \<and>
         (snd (supplier_register b i s) = (200, Message ''Supplier registered'') \<longrightarrow>
           (\<exists>a. suppliers (fst (supplier_register b i s)) = suppliers s @ [a] \<and> oid a = i \<and>
                verified a = Some False))"
  using boolean_default_false_unverified [OF assms]
  by (auto simp: register_def supplier_register_def save_new_def new_Vendor_def new_Supplier_def
      split: cast_result.splits if_splits)

lemma registration_unverified_example:
  "body_verified empty_body = None \<and>
   snd (register empty_body 1 empty_state) = (200, Message ''Vendor registered'') \<and>
   map verified (vendors (fst (register empty_body 1 empty_state))) = [Some False] \<and>
   snd (supplier_register empty_body 1 empty_state) = (200, Message ''Supplier registered'') \<and>
   map verified (suppliers (fst (supplier_register empty_body 1 empty_state))) = [Some False]"
  using registration_unverified [where b = empty_body and i = 1 and s = empty_state]
  by (simp add: empty_body_def empty_state_def register_def supplier_register_def save_new_def
      new_Vendor_def new_Supplier_def boolean_default_false_def)

section \<open>The claims\<close>

subsection \<open>C1: a registered account starts unverified\<close>

text \<open>
  C1. The claim: whatever fields the registration request supplies, the stored account's
  \<^verbatim>\<open>verified\<close> is false when the registration has completed. The schema gives
  \<^verbatim>\<open>verified\<close> the default false, and an account is verified by the administrator's
  \<^verbatim>\<open>/api/verify-user\<close>; but the registration handlers build the document from
  \<^verbatim>\<open>{ ...req.body }\<close>, so the default only fills a field the request leaves out. A
  request with \<^verbatim>\<open>"verified": true\<close> registers an account that is verified from the
  start, as a vendor and as a supplier.
\<close>

theorem registration_accepts_verified:
  "snd (register (empty_body\<lparr>body_verified := Some (JBool True)\<rparr>) 1 empty_state)
     = (200, Message ''Vendor registered'') \<and>
   map verified (vendors (fst (register (empty_body\<lparr>body_verified := Some (JBool True)\<rparr>) 1 empty_state)))
     = [Some True] \<and>
   snd (supplier_register (empty_body\<lparr>body_verified := Some (JBool True)\<rparr>) 1 empty_state)
     = (200, Message ''Supplier registered'') \<and>
   map verified (suppliers (fst (supplier_register (empty_body\<lparr>body_verified := Some (JBool True)\<rparr>) 1 empty_state)))
     = [Some True]"
  by (simp add: empty_body_def empty_state_def register_def supplier_register_def save_new_def
      new_Vendor_def new_Supplier_def boolean_default_false_def)

subsection \<open>C2: temporary upload files after a failed submission\<close>

text \<open>
  C2. The claim: after a grievance submission with attached files, successful or not, no
  temporary upload file of the request remains on disk. The handler removes the files
  after \<^verbatim>\<open>grievance.save()\<close>, inside the \<^verbatim>\<open>try\<close>; its \<^verbatim>\<open>catch\<close> removes nothing.
  A submission with one attached file and no \<^verbatim>\<open>postedBy\<close> fails validation in the save,
  answers 500, and leaves the state as it was, the staged file included.
\<close>

theorem submit_failure_leaves_temp_file:
  "grievance_post (late_delivery\<lparr>req_postedBy := None\<rparr>) (Some [bill_png]) staged
     = (staged, (500, Error ''Grievance submission failed'')) \<and>
   disk staged (path bill_png) = Some [72, 105]"
  by (simp add: grievance_post_def req_files_def save_Grievance_def staged_def empty_state_def
      bill_png_def late_delivery_def)

subsection \<open>C3: approving an account that does not exist\<close>

text \<open>
  C3, amended. The handler never looks at what \<^verbatim>\<open>findByIdAndUpdate\<close> resolves to and
  has no branch for another role. What holds: Approve(role, id) leaves the store unchanged
  when no account of the given role has the given id, and when the role is neither
  \<^verbatim>\<open>vendor\<close> nor \<^verbatim>\<open>supplier\<close>; in both cases it reports success
  (200, \<^verbatim>\<open>User verified\<close>).
\<close>

theorem approve_missing_is_silent:
  "(i \<notin> oid ` set (vendors s) \<longrightarrow>
      verify_user ''vendor'' (Some i) s = (s, (200, Message ''User verified''))) \<and>
   (i \<notin> oid ` set (suppliers s) \<longrightarrow>
      verify_user ''supplier'' (Some i) s = (s, (200, Message ''User verified''))) \<and>
   (userType \<noteq> ''vendor'' \<and> userType \<noteq> ''supplier'' \<longrightarrow>
      verify_user userType id_arg s = (s, (200, Message ''User verified'')))"
  by (simp add: verify_user_def findByIdAndUpdate_absent)

theorem approve_missing_is_silent_witness:
  "1 \<notin> oid ` set (vendors empty_state) \<and> 1 \<notin> oid ` set (suppliers empty_state) \<and>
   ''admin'' \<noteq> ''vendor'' \<and> ''admin'' \<noteq> ''supplier'' \<and>
   verify_user ''vendor'' (Some 1) empty_state = (empty_state, (200, Message ''User verified'')) \<and>
   verify_user ''supplier'' (Some 1) empty_state = (empty_state, (200, Message ''User verified'')) \<and>
   verify_user ''admin'' (Some 1) empty_state = (empty_state, (200, Message ''User verified''))"
  using approve_missing_is_silent [where i = 1 and s = empty_state and userType = "''admin''"
      and id_arg = "Some 1"]
  by (simp add: empty_state_def)

text \<open>
  C3 as stated fails: approving the vendor id 7, which no vendor has, and approving with
  the role \<^verbatim>\<open>admin\<close> both answer 200 \<^verbatim>\<open>User verified\<close>.
\<close>

theorem approve_reports_success_counterexample:
  "snd (verify_user ''vendor'' (Some 7) one_vendor) = (200, Message ''User verified'') \<and>
   7 \<notin> oid ` set (vendors one_vendor) \<and>
   snd (verify_user ''admin'' (Some 1) one_vendor) = (200, Message ''User verified'')"
  by (simp add: verify_user_def one_vendor_def empty_state_def)

subsection \<open>C4: rejecting an account, and rejecting it again\<close>

text \<open>
  C4, amended. What holds: Reject(role, id) removes the account of that role with that id,
  so that the following list of pending accounts does not include it; a second Reject with
  the same role and id leaves the store unchanged and reports success
  (200, \<^verbatim>\<open>User rejected and deleted\<close>).
\<close>

theorem reject_removes_and_repeats:
  assumes "ids_unique s"
  shows "(\<exists>vs ss. unverified_users (fst (reject_user ''vendor'' (Some i) s)) = (200, Users vs ss) \<and>
            i \<notin> oid ` set vs \<and> i \<notin> oid ` set (vendors (fst (reject_user ''vendor'' (Some i) s)))) \<and>
         (\<exists>vs ss. unverified_users (fst (reject_user ''supplier'' (Some i) s)) = (200, Users vs ss) \<and>
            i \<notin> oid ` set ss \<and> i \<notin> oid ` set (suppliers (fst (reject_user ''supplier'' (Some i) s)))) \<and>
         (type_arg = ''vendor'' \<or> type_arg = ''supplier'' \<longrightarrow>
            reject_user type_arg (Some i) (fst (reject_user type_arg (Some i) s))
              = (fst (reject_user type_arg (Some i) s), (200, Message ''User rejected and deleted'')))"
proof -
  have v: "i \<notin> oid ` set (findByIdAndDelete i (vendors s))"
    using assms by (simp add: ids_unique_def findByIdAndDelete_gone)
  have u: "i \<notin> oid ` set (findByIdAndDelete i (suppliers s))"
    using assms by (simp add: ids_unique_def findByIdAndDelete_gone)
  have v': "i \<notin> oid ` set (find_unverified (findByIdAndDelete i (vendors s)))"
    using v by (auto simp: find_unverified_def)
  have u': "i \<notin> oid ` set (find_unverified (findByIdAndDelete i (suppliers s)))"
    using u by (auto simp: find_unverified_def)
  show ?thesis
    using v u v' u'
    by (simp add: reject_user_def unverified_users_def findByIdAndDelete_absent)
qed

theorem reject_removes_and_repeats_witness:
  "ids_unique one_vendor \<and> 1 \<in> oid ` set (vendors one_vendor) \<and>
   unverified_users one_vendor = (200, Users (vendors one_vendor) []) \<and>
   unverified_users (fst (reject_user ''vendor'' (Some 1) one_vendor)) = (200, Users [] []) \<and>
   reject_user ''vendor'' (Some 1) (fst (reject_user ''vendor'' (Some 1) one_vendor))
     = (fst (reject_user ''vendor'' (Some 1) one_vendor), (200, Message ''User rejected and deleted''))"
  using reject_removes_and_repeats [where s = one_vendor and type_arg = "''vendor''" and i = 1]
  by (simp add: ids_unique_def one_vendor_def empty_state_def unverified_users_def
      find_unverified_def reject_user_def findByIdAndDelete_def has_id_def)

text \<open>
  C4 as stated fails in its second part: the second Reject of the vendor with id 1, who is
  gone after the first, answers 200 \<^verbatim>\<open>User rejected and deleted\<close>.
\<close>

theorem second_reject_reports_success_counterexample:
  "1 \<in> oid ` set (vendors one_vendor) \<and>
   1 \<notin> oid ` set (vendors (fst (reject_user ''vendor'' (Some 1) one_vendor))) \<and>
   snd (reject_user ''vendor'' (Some 1) (fst (reject_user ''vendor'' (Some 1) one_vendor)))
     = (200, Message ''User rejected and deleted'')"
  by (simp add: one_vendor_def empty_state_def reject_user_def findByIdAndDelete_def has_id_def)

subsection \<open>C5: attachments of a submitted grievance\<close>

text \<open>
  C5. The claim: the entry of a submission with N files has N attachments, in order, and the
  content of each decodes from base64 to the bytes of its file. The storage names a staged
  file by the clock and the client's file name, so two parts with one name that are staged in
  the same millisecond share a path. The second part replaces the first on the disk, the
  handler reads that path twice, and both attachments of the stored entry decode to the bytes
  of the second part; the first part's bytes are lost. (The second \<^verbatim>\<open>unlinkSync\<close> then
  finds no file, so the request answers 500 after the entry is saved.)
\<close>

theorem submit_same_name_same_instant:
  "staged_path receipt_first = staged_path receipt_second \<and>
   part_bytes receipt_first = [1] \<and> part_bytes receipt_second = [2] \<and>
   snd (grievance_route late_delivery [receipt_first, receipt_second] empty_state)
     = (500, Error ''Grievance submission failed'') \<and>
   map (\<lambda>g. map (\<lambda>a. b64_decode (content a)) (attachments g))
       (grievances (fst (grievance_route late_delivery [receipt_first, receipt_second] empty_state)))
     = [[Some [2], Some [2]]]"
  by (simp add: grievance_route_def grievance_post_def req_files_def save_Grievance_def
      staged_path_def storage_destination_def storage_filename_def decimal.simps
      receipt_first_def receipt_second_def late_delivery_def empty_state_def
      b64_char_def b64_alphabet_def b64_value_def)

subsection \<open>C6: Approve is idempotent\<close>

text \<open>
  C6. Approve(role, id) applied twice gives the state, and the response, that applying it
  once gives; approving an account that is verified already changes nothing and reports
  success.
\<close>

theorem approve_idempotent:
  "fst (verify_user userType id_arg (fst (verify_user userType id_arg s)))
     = fst (verify_user userType id_arg s) \<and>
   snd (verify_user userType id_arg (fst (verify_user userType id_arg s)))
     = snd (verify_user userType id_arg s) \<and>
   (find (has_id i) (vendors s) = Some v \<and> verified v = Some True \<longrightarrow>
      verify_user ''vendor'' (Some i) s = (s, (200, Message ''User verified''))) \<and>
   (find (has_id i) (suppliers s) = Some u \<and> verified u = Some True \<longrightarrow>
      verify_user ''supplier'' (Some i) s = (s, (200, Message ''User verified'')))"
  by (simp add: verify_user_def findByIdAndUpdate_idem findByIdAndUpdate_verified_already
        split: option.splits)

theorem approve_idempotent_witness:
  "find (has_id 3) (vendors verified_vendor) = Some (hd (vendors verified_vendor)) \<and>
   verified (hd (vendors verified_vendor)) = Some True \<and>
   verify_user ''vendor'' (Some 3) verified_vendor = (verified_vendor, (200, Message ''User verified'')) \<and>
   find (has_id 1) (suppliers two_suppliers) = Some (hd (suppliers two_suppliers)) \<and>
   verified (hd (suppliers two_suppliers)) = Some True \<and>
   verify_user ''supplier'' (Some 1) two_suppliers = (two_suppliers, (200, Message ''User verified'')) \<and>
   fst (verify_user ''supplier'' (Some 2) (fst (verify_user ''supplier'' (Some 2) two_suppliers)))
     = fst (verify_user ''supplier'' (Some 2) two_suppliers) \<and>
   map verified (suppliers two_suppliers) = [Some True, Some False] \<and>
   map verified (suppliers (fst (verify_user ''supplier'' (Some 2) two_suppliers)))
     = [Some True, Some True]"
  using approve_idempotent [where userType = "''supplier''" and id_arg = "Some 2" and s = two_suppliers
      and i = 1 and u = "hd (suppliers two_suppliers)"]
    approve_idempotent [where userType = "''vendor''" and id_arg = "Some 3" and s = verified_vendor
      and i = 3 and v = "hd (vendors verified_vendor)"]
  by (simp add: two_suppliers_def verified_vendor_def empty_state_def has_id_def verify_user_def
      findByIdAndUpdate_verified_def set_verified_def)

subsection \<open>C7: the list filter\<close>

text \<open>
  C7. Over a ledger, List with no filter or with the filter \<^verbatim>\<open>all\<close> returns every
  entry; with another filter it returns exactly the entries whose \<^verbatim>\<open>postedBy\<close> matches
  the filter when case is ignored.
\<close>

theorem list_filter_by_role:
  assumes "ledger_ok s"
  shows "(q = None \<or> q = Some ''all'' \<longrightarrow>
           (\<exists>xs. grievances_get q s = (200, GrievanceList xs) \<and> mset xs = mset (grievances s))) \<and>
         (f \<noteq> [] \<and> f \<noteq> ''all'' \<longrightarrow>
           (\<exists>xs. grievances_get (Some f) s = (200, GrievanceList xs) \<and>
              mset xs = filter_mset (\<lambda>g. eq_ignoring_case (postedBy g) f) (mset (grievances s))))"
proof -
  have all: "q = None \<or> q = Some ''all'' \<Longrightarrow> filter (grievance_filter q) (grievances s) = grievances s"
    by (auto simp: grievance_filter_def)
  have "f \<noteq> [] \<and> f \<noteq> ''all'' \<Longrightarrow>
        filter (grievance_filter (Some f)) (grievances s)
          = filter (\<lambda>g. eq_ignoring_case (postedBy g) f) (grievances s)"
    using toLowerCase_eq_ignoring_case [OF ledger_ok_small [OF assms]]
    by (intro filter_cong) (auto simp: grievance_filter_def)
  then have one: "f \<noteq> [] \<and> f \<noteq> ''all'' \<Longrightarrow>
        mset (filter (grievance_filter (Some f)) (grievances s))
          = filter_mset (\<lambda>g. eq_ignoring_case (postedBy g) f) (mset (grievances s))"
    by simp
  show ?thesis
    using all one by (auto simp: grievances_get_def mset_sort_issueDate_desc)
qed

theorem list_filter_by_role_witness:
  "ledger_ok three_grievances \<and> ''SuPPlier'' \<noteq> [] \<and> ''SuPPlier'' \<noteq> ''all'' \<and>
   eq_ignoring_case ''supplier'' ''SuPPlier'' \<and> \<not> eq_ignoring_case ''vendor'' ''SuPPlier'' \<and>
   grievances_get (Some ''SuPPlier'') three_grievances
     = (200, GrievanceList [grievance_at 20 ''supplier'']) \<and>
   grievances_get (Some ''Vendor'') three_grievances
     = (200, GrievanceList [grievance_at 30 ''vendor'', grievance_at 10 ''vendor'']) \<and>
   grievances_get (Some ''all'') three_grievances
     = (200, GrievanceList [grievance_at 30 ''vendor'', grievance_at 20 ''supplier'',
          grievance_at 10 ''vendor'']) \<and>
   grievances_get None three_grievances = grievances_get (Some ''all'') three_grievances"
  using list_filter_by_role [where s = three_grievances and q = "Some ''all''" and f = "''SuPPlier''"]
  by (simp add: ledger_ok_def three_grievances_def empty_state_def grievance_at_def
      grievances_get_def grievance_filter_def toLowerCase_def lower_char_def
      eq_ignoring_case_def same_letter_def letter_cases_def)

subsection \<open>C8: the list order\<close>

text \<open>
  C8. List returns the entries that pass the filter in descending order of issue date; three
  stored entries with dates T1 < T2 < T3, in whatever order they were stored, are returned
  as [T3, T2, T1].
\<close>

theorem list_sorted_descending:
  "(\<exists>xs. grievances_get q s = (200, GrievanceList xs) \<and>
      sorted_wrt (\<lambda>a b. date_ge (issueDate a) (issueDate b)) xs \<and>
      mset xs = filter_mset (grievance_filter q) (mset (grievances s))) \<and>
   (mset (grievances s) = {#g1, g2, g3#} \<and> issueDate g1 = Some t1 \<and> issueDate g2 = Some t2 \<and>
    issueDate g3 = Some t3 \<and> t1 < t2 \<and> t2 < t3 \<longrightarrow>
      grievances_get None s = (200, GrievanceList [g3, g2, g1]))"
proof -
  have a: "\<exists>xs. grievances_get q s = (200, GrievanceList xs) \<and>
      sorted_wrt (\<lambda>a b. date_ge (issueDate a) (issueDate b)) xs \<and>
      mset xs = filter_mset (grievance_filter q) (mset (grievances s))"
    by (simp add: grievances_get_def sorted_sort_issueDate_desc mset_sort_issueDate_desc)
  have b: "grievances_get None s = (200, GrievanceList [g3, g2, g1])"
    if h: "mset (grievances s) = {#g1, g2, g3#}" "issueDate g1 = Some t1" "issueDate g2 = Some t2"
      "issueDate g3 = Some t3" "t1 < t2" "t2 < t3"
  proof -
    have f: "filter (grievance_filter None) (grievances s) = grievances s"
      by (simp add: grievance_filter_def)
    from mset_three [OF h(1)] have "sort_issueDate_desc (grievances s) = [g3, g2, g1]"
      using h(2-6) by auto
    with f show ?thesis by (simp add: grievances_get_def)
  qed
  from a b show ?thesis by blast
qed

theorem list_sorted_descending_witness:
  "mset (grievances three_grievances)
     = {#grievance_at 10 ''vendor'', grievance_at 20 ''supplier'', grievance_at 30 ''vendor''#} \<and>
   issueDate (grievance_at 10 ''vendor'') = Some 10 \<and>
   issueDate (grievance_at 20 ''supplier'') = Some 20 \<and>
   issueDate (grievance_at 30 ''vendor'') = Some 30 \<and> (10 :: int) < 20 \<and> (20 :: int) < 30 \<and>
   grievances_get None three_grievances
     = (200, GrievanceList [grievance_at 30 ''vendor'', grievance_at 20 ''supplier'',
          grievance_at 10 ''vendor''])"
proof -
  have m: "mset (grievances three_grievances)
     = {#grievance_at 10 ''vendor'', grievance_at 20 ''supplier'', grievance_at 30 ''vendor''#}"
    by (simp add: three_grievances_def empty_state_def)
  have d: "issueDate (grievance_at 10 ''vendor'') = Some 10"
    "issueDate (grievance_at 20 ''supplier'') = Some 20"
    "issueDate (grievance_at 30 ''vendor'') = Some 30"
    by (simp_all add: grievance_at_def)
  from list_sorted_descending [where s = three_grievances and q = None
      and ?g1.0 = "grievance_at 10 ''vendor''" and ?g2.0 = "grievance_at 20 ''supplier''"
      and ?g3.0 = "grievance_at 30 ''vendor''" and ?t1.0 = 10 and ?t2.0 = 20 and ?t3.0 = 30]
    m d
  show ?thesis by simp
qed

subsection \<open>C9: Reject changes the account store only\<close>

text \<open>
  C9. Reject(role, id) leaves menu items, cart entries, grievances and the disk as they
  are, leaves the collection of the other role as it is, and keeps every account whose id
  is not the given one, in order.
\<close>

theorem reject_frame:
  "menus (fst (reject_user type_arg id_arg s)) = menus s \<and>
   vendorcarts (fst (reject_user type_arg id_arg s)) = vendorcarts s \<and>
   grievances (fst (reject_user type_arg id_arg s)) = grievances s \<and>
   disk (fst (reject_user type_arg id_arg s)) = disk s \<and>
   (type_arg \<noteq> ''vendor'' \<longrightarrow> vendors (fst (reject_user type_arg id_arg s)) = vendors s) \<and>
   (type_arg \<noteq> ''supplier'' \<longrightarrow> suppliers (fst (reject_user type_arg id_arg s)) = suppliers s) \<and>
   (id_arg = None \<longrightarrow> fst (reject_user type_arg id_arg s) = s) \<and>
   (id_arg = Some i \<longrightarrow>
      filter (\<lambda>a. oid a \<noteq> i) (vendors (fst (reject_user type_arg id_arg s)))
        = filter (\<lambda>a. oid a \<noteq> i) (vendors s) \<and>
      filter (\<lambda>a. oid a \<noteq> i) (suppliers (fst (reject_user type_arg id_arg s)))
        = filter (\<lambda>a. oid a \<noteq> i) (suppliers s))"
  using delete_first_filter_others [of "has_id i" "vendors s"]
    delete_first_filter_others [of "has_id i" "suppliers s"]
  by (simp add: reject_user_def findByIdAndDelete_def has_id_def split: option.splits)

theorem reject_frame_witness:
  "vendors (fst (reject_user ''supplier'' (Some 1) two_suppliers)) = vendors two_suppliers \<and>
   map oid (suppliers (fst (reject_user ''supplier'' (Some 1) two_suppliers))) = [2] \<and>
   filter (\<lambda>a. oid a \<noteq> 1) (suppliers (fst (reject_user ''supplier'' (Some 1) two_suppliers)))
     = filter (\<lambda>a. oid a \<noteq> 1) (suppliers two_suppliers) \<and>
   fst (reject_user ''supplier'' None two_suppliers) = two_suppliers \<and>
   suppliers (fst (reject_user ''vendor'' (Some 1) two_suppliers)) = suppliers two_suppliers"
  using reject_frame [where type_arg = "''supplier''" and id_arg = "Some 1" and s = two_suppliers and i = 1]
    reject_frame [where type_arg = "''supplier''" and id_arg = None and s = two_suppliers and i = 1]
    reject_frame [where type_arg = "''vendor''" and id_arg = "Some 1" and s = two_suppliers and i = 1]
  by (simp add: two_suppliers_def empty_state_def reject_user_def findByIdAndDelete_def has_id_def)

subsection \<open>C10: the shop status update\<close>

text \<open>
  C10. Given a phone and a boolean status, the update answers 404 and changes nothing when
  no supplier has the phone; otherwise it sets \<^verbatim>\<open>shopStatus\<close> of the first supplier with
  that phone and changes no other field of it, no other supplier and nothing else in the
  state.
\<close>

theorem shop_status_frame:
  assumes "p \<noteq> []"
  shows "(find (has_phone p) (suppliers s) = None \<longrightarrow>
           supplier_shop_status (Some p) (Some (JBool b)) s = (s, (404, Error ''Supplier not found''))) \<and>
         (find (has_phone p) (suppliers s) \<noteq> None \<longrightarrow>
           (\<exists>pre a post. suppliers s = pre @ a # post \<and> phone a = Some p \<and>
              (\<forall>x\<in>set pre. phone x \<noteq> Some p) \<and>
              supplier_shop_status (Some p) (Some (JBool b)) s =
                (s\<lparr>suppliers := pre @ a\<lparr>shopStatus := Some b\<rparr> # post\<rparr>,
                 (200, ShopStatus ''Shop status updated successfully'' (Some b)))))"
proof (cases "find (has_phone p) (suppliers s)")
  case None
  with assms show ?thesis by (simp add: supplier_shop_status_def)
next
  case (Some a)
  from update_first_split [OF Some, of "\<lambda>a. a\<lparr>shopStatus := Some b\<rparr>"]
  obtain pre post where h: "suppliers s = pre @ a # post" "\<forall>x\<in>set pre. \<not> has_phone p x"
    "has_phone p a"
    "update_first (has_phone p) (\<lambda>a. a\<lparr>shopStatus := Some b\<rparr>) (suppliers s)
       = pre @ a\<lparr>shopStatus := Some b\<rparr> # post"
    by blast
  have "supplier_shop_status (Some p) (Some (JBool b)) s =
          (s\<lparr>suppliers := pre @ a\<lparr>shopStatus := Some b\<rparr> # post\<rparr>,
           (200, ShopStatus ''Shop status updated successfully'' (Some b)))"
    using assms Some h(4) by (simp add: supplier_shop_status_def)
  with h(1-3) Some show ?thesis
    by (auto simp: has_phone_def)
qed

theorem shop_status_frame_witness:
  "''901'' \<noteq> [] \<and> find (has_phone ''901'') (suppliers two_suppliers) \<noteq> None \<and>
   find (has_phone ''555'') (suppliers two_suppliers) = None \<and>
   supplier_shop_status (Some ''555'') (Some (JBool True)) two_suppliers
     = (two_suppliers, (404, Error ''Supplier not found'')) \<and>
   supplier_shop_status (Some ''901'') (Some (JBool True)) two_suppliers
     = (two_suppliers\<lparr>suppliers :=
          [hd (suppliers two_suppliers), (suppliers two_suppliers ! 1)\<lparr>shopStatus := Some True\<rparr>]\<rparr>,
        (200, ShopStatus ''Shop status updated successfully'' (Some True)))"
  using shop_status_frame [where p = "''901''" and s = two_suppliers and b = True]
    shop_status_frame [where p = "''555''" and s = two_suppliers and b = True]
  by (simp add: two_suppliers_def empty_state_def has_phone_def supplier_shop_status_def)

end
